theory Spec2Isabelle
  imports Main "HOL-Library.Sublist"
begin

section \<open>Loop Runner: the loop controller of \<open>src/server.ts\<close>\<close>

text \<open>
  The server keeps two process-wide objects, \<open>config\<close> and \<open>state\<close>, a handle on the
  agent runtime (\<open>opencodeServer\<close>, \<open>opencodeClient\<close>), the abort controller of the
  current run and the set of event-stream subscribers. The embedding passes all of them
  around in one record, \<open>World\<close>. What \<open>broadcast\<close> publishes is kept as the list of
  events in publication order, and what \<open>console.error\<close> prints as a list of lines.

  Everything outside the process is an input of the model: what the shell returns for
  the monitor command, what the agent runtime answers, how long each \<open>await\<close> takes, and
  which HTTP requests are served while the loop is suspended in an \<open>await\<close>.
\<close>

subsection \<open>Data\<close>

record ModelRef =
  providerID :: string
  modelID :: string

text \<open>
  \<open>interface LoopConfig\<close>. \<open>monitor\<close> is \<open>{ command: string } | null\<close>. The interval
  and the ceiling are integers of either sign, since \<open>POST /api/config\<close> stores what it is
  sent; a ceiling that is not positive means no ceiling.
\<close>

record LoopConfig =
  model :: ModelRef
  system :: string
  user :: string
  working :: string
  persistent :: string
  monitor :: "string option"
  interval :: int
  maxIterations :: int
  autoApprove :: bool

text \<open>One element of \<open>LoopState.history\<close>.\<close>

record HistoryEntry =
  h_iteration :: nat
  h_prompt :: string
  h_response :: string
  h_timestamp :: nat

text \<open>\<open>interface LoopState\<close>.\<close>

record LoopState =
  running :: bool
  iteration :: nat
  sessionID :: "string option"
  lastOutput :: string
  monitorOutput :: string
  history :: "HistoryEntry list"

text \<open>The objects handed to \<open>broadcast\<close>, one constructor for each \<open>type\<close> tag.\<close>

datatype Event =
    EvState LoopState
  | EvIteration nat
  | EvMonitor string
  | EvError string "nat option"
  | EvPrompt string nat
  | EvResponse string nat
  | EvConfig LoopConfig
  | EvStopped

text \<open>
  \<open>loopAbort\<close> is \<open>None\<close> while it is \<open>null\<close> and \<open>Some b\<close> once a controller exists,
  \<open>b\<close> being \<open>signal.aborted\<close>. \<open>clock\<close> is the time in milliseconds, read by
  \<open>Date.now()\<close> and advanced by every suspension.
\<close>

record World =
  config :: LoopConfig
  state :: LoopState
  opencodeServer :: bool
  opencodeClient :: bool
  loopAbort :: "bool option"
  events :: "Event list"
  console :: "string list"
  clock :: nat

text \<open>
  The body of \<open>POST /api/config\<close>, a \<open>Partial<LoopConfig>\<close>: every field is present
  or absent.
\<close>

record ConfigPatch =
  p_model :: "ModelRef option"
  p_system :: "string option"
  p_user :: "string option"
  p_working :: "string option"
  p_persistent :: "string option"
  p_monitor :: "string option option"
  p_interval :: "int option"
  p_maxIterations :: "int option"
  p_autoApprove :: "bool option"

text \<open>
  The requests that change the store, as they are served while a loop is suspended in an
  \<open>await\<close>: \<open>POST /api/stop\<close>, \<open>/api/start\<close>, \<open>/api/working\<close>, \<open>/api/persistent\<close>
  and \<open>/api/config\<close>.
\<close>

datatype Request =
    PostStop
  | PostStart
  | PostWorking "string option"
  | PostPersistent "string option"
  | PostConfig ConfigPatch

text \<open>
  What the world outside answers.

  \<open>Bun.spawn(["sh", "-c", command])\<close> with the reads of its two pipes: the process runs
  and ends with standard output, standard error and an exit status (\<open>ShellOutput\<close>), or
  spawning \<open>sh\<close> or reading a pipe throws (\<open>ShellThrows\<close>). A command that \<open>sh\<close> cannot
  find or cannot execute is of the first kind: \<open>sh\<close> writes its complaint to standard
  error and exits with a status that is not zero.

  \<open>session.create\<close> resolves to a result object with \<open>data\<close>, resolves to one without,
  or rejects. \<open>session.prompt\<close> likewise. \<open>startOpenCode\<close> fails in
  \<open>createOpencodeServer\<close>, fails in \<open>createOpencodeClient\<close>, or succeeds.
\<close>

datatype ShellResult = ShellOutput string string nat | ShellThrows string

datatype SessionResult = SessionData string | SessionNoData | SessionThrows string

datatype Part = TextPart string | OtherPart string

datatype PromptResult = PromptData "Part list" | PromptNoData | PromptThrows string

datatype StartEnv = ServerFails string | ClientFails string | Started

text \<open>
  A suspension at an \<open>await\<close>: how long it lasts and the requests served meanwhile.
\<close>

type_synonym Wait = "nat \<times> Request list"

text \<open>
  The surroundings of one pass through the loop body: the shell, the two calls to the
  agent runtime, and the requests that arrive while the pacing timer runs.
\<close>

record IterEnv =
  shell :: "string \<Rightarrow> ShellResult"
  monitor_wait :: Wait
  session_result :: SessionResult
  session_wait :: Wait
  prompt_result :: PromptResult
  prompt_wait :: Wait
  sleep_requests :: "Request list"

text \<open>
  How the work of one pass ends: at the state snapshot of line 178, at the \<open>continue\<close>
  of line 140, or with an exception that nothing in \<open>runLoop\<close> catches.
\<close>

datatype Flow = Snapshot | NoSession | Rejected string

text \<open>
  How \<open>runLoop\<close> ends: it returns, it is still going when the script ends, or its
  promise rejects.
\<close>

datatype Outcome = Completed | Pending | Threw string

subsection \<open>Strings\<close>

text \<open>\<open>Array.prototype.join\<close>.\<close>

fun join :: "string \<Rightarrow> string list \<Rightarrow> string" where
  "join sep [] = []"
| "join sep [x] = x"
| "join sep (x # y # ys) = x @ sep @ join sep (y # ys)"

text \<open>The decimal text of a counter, as a template literal prints it.\<close>

definition digit_char :: "nat \<Rightarrow> char" where
  "digit_char d = ''0123456789'' ! d"

fun string_of_nat :: "nat \<Rightarrow> string" where
  "string_of_nat n =
     (if n < 10 then [digit_char n]
      else string_of_nat (n div 10) @ [digit_char (n mod 10)])"

declare string_of_nat.simps [simp del]

subsection \<open>The broadcast hub and the request handlers\<close>

definition broadcast :: "Event \<Rightarrow> World \<Rightarrow> World" where
  "broadcast ev w = w\<lparr>events := events w @ [ev]\<rparr>"

text \<open>\<open>config = { ...config, ...body }\<close>\<close>

definition merge_config :: "LoopConfig \<Rightarrow> ConfigPatch \<Rightarrow> LoopConfig" where
  "merge_config c p =
     \<lparr> model = (case p_model p of None \<Rightarrow> model c | Some v \<Rightarrow> v),
       system = (case p_system p of None \<Rightarrow> system c | Some v \<Rightarrow> v),
       user = (case p_user p of None \<Rightarrow> user c | Some v \<Rightarrow> v),
       working = (case p_working p of None \<Rightarrow> working c | Some v \<Rightarrow> v),
       persistent = (case p_persistent p of None \<Rightarrow> persistent c | Some v \<Rightarrow> v),
       monitor = (case p_monitor p of None \<Rightarrow> monitor c | Some v \<Rightarrow> v),
       interval = (case p_interval p of None \<Rightarrow> interval c | Some v \<Rightarrow> v),
       maxIterations = (case p_maxIterations p of None \<Rightarrow> maxIterations c | Some v \<Rightarrow> v),
       autoApprove = (case p_autoApprove p of None \<Rightarrow> autoApprove c | Some v \<Rightarrow> v) \<rparr>"

text \<open>\<open>body.working ?? ""\<close>\<close>

definition or_empty :: "string option \<Rightarrow> string" where
  "or_empty v = (case v of None \<Rightarrow> [] | Some s \<Rightarrow> s)"

text \<open>
  \<open>POST /api/start\<close> served while a loop is suspended:
  \<open>if (!state.running) runLoop().catch(console.error)\<close>. While the running flag is set
  nothing happens. Otherwise \<open>runLoop\<close> is called, and runs until its first \<open>await\<close>
  before the handler goes on. With a client that is lines 119 to 131: the flag is set, the
  counter reset, a fresh abort controller replaces the old one, the state is published,
  the loop is entered (the counter is 0, below any ceiling), the counter incremented and
  published, up to the call of \<open>runMonitor\<close> in line 134. With no client but a server
  handle the call throws at line 117, which the handler prints; with neither,
  \<open>createOpencodeServer\<close> is pending. The loop so started is a second task on the same
  store: the loop that is followed here finds the flag set and the fresh controller when
  it resumes, and goes on. What the second task does from its monitor command onwards is
  not part of the surroundings of a pass: the embedding follows one loop.
\<close>

definition start_while_suspended :: "World \<Rightarrow> World" where
  "start_while_suspended w =
     (if running (state w) then w
      else if \<not> opencodeClient w then
        (if opencodeServer w then w\<lparr>console := console w @ [''Error: Failed to start OpenCode'']\<rparr>
         else w)
      else
        (let w2 = w\<lparr>state := (state w)\<lparr>running := True\<rparr>\<rparr>;
             w3 = w2\<lparr>state := (state w2)\<lparr>iteration := 0\<rparr>\<rparr>;
             w4 = w3\<lparr>loopAbort := Some False\<rparr>;
             w5 = broadcast (EvState (state w4)) w4;
             w6 = w5\<lparr>state := (state w5)\<lparr>iteration := iteration (state w5) + 1\<rparr>\<rparr>
         in broadcast (EvIteration (iteration (state w6))) w6))"

text \<open>
  The handlers of \<open>/api/stop\<close>, \<open>/api/start\<close>, \<open>/api/working\<close>, \<open>/api/persistent\<close>
  and \<open>/api/config\<close>.
\<close>

fun handle_request :: "Request \<Rightarrow> World \<Rightarrow> World" where
  "handle_request PostStop w =
     w\<lparr>state := (state w)\<lparr>running := False\<rparr>,
       loopAbort := (case loopAbort w of None \<Rightarrow> None | Some _ \<Rightarrow> Some True)\<rparr>"
| "handle_request PostStart w = start_while_suspended w"
| "handle_request (PostWorking v) w =
     (let w1 = w\<lparr>config := (config w)\<lparr>working := or_empty v\<rparr>\<rparr>
      in broadcast (EvConfig (config w1)) w1)"
| "handle_request (PostPersistent v) w =
     (let w1 = w\<lparr>config := (config w)\<lparr>persistent := or_empty v\<rparr>\<rparr>
      in broadcast (EvConfig (config w1)) w1)"
| "handle_request (PostConfig p) w =
     (let w1 = w\<lparr>config := merge_config (config w) p\<rparr>
      in broadcast (EvConfig (config w1)) w1)"

text \<open>
  An \<open>await\<close>: the requests that arrive are served in order, and time moves on.
\<close>

definition suspend :: "Wait \<Rightarrow> World \<Rightarrow> World" where
  "suspend wt w = (fold handle_request (snd wt) w)\<lparr>clock := clock w + fst wt\<rparr>"

text \<open>
  The delay of \<open>setTimeout(resolve, ms)\<close>: a delay below 1 or above \<open>2^31 - 1\<close> is
  replaced by 1, so that the timer fires at once instead of after \<open>ms\<close> milliseconds.
\<close>

definition timer_delay :: "int \<Rightarrow> nat" where
  "timer_delay ms = (if ms < 1 \<or> 2147483647 < ms then 1 else nat ms)"

text \<open>
  \<open>sleep(ms)\<close> resolves when its timer fires. It takes no abort signal: the requests
  served meanwhile do not change when it resolves.
\<close>

definition sleep :: "int \<Rightarrow> Request list \<Rightarrow> World \<Rightarrow> World" where
  "sleep ms rs w = suspend (timer_delay ms, rs) w"

subsection \<open>Starting the agent runtime\<close>

text \<open>
  \<open>startOpenCode\<close>: the first component of the result is the exception thrown, if any.
  \<open>createOpencodeServer\<close> may reject (\<open>ServerFails\<close>); \<open>createOpencodeClient\<close> runs
  after \<open>opencodeServer\<close> is assigned (\<open>ClientFails\<close>).
\<close>

definition startOpenCode :: "StartEnv \<Rightarrow> World \<Rightarrow> string option \<times> World" where
  "startOpenCode senv w =
     (if opencodeServer w then (None, w)
      else case senv of
             ServerFails e \<Rightarrow> (Some e, w)
           | ClientFails e \<Rightarrow> (Some e, w\<lparr>opencodeServer := True\<rparr>)
           | Started \<Rightarrow> (None, w\<lparr>opencodeServer := True, opencodeClient := True\<rparr>))"

text \<open>\<open>if (!opencodeClient) await startOpenCode()\<close>, shared by \<open>runLoop\<close> and \<open>fetchModels\<close>.\<close>

definition ensure_client :: "StartEnv \<Rightarrow> World \<Rightarrow> string option \<times> World" where
  "ensure_client senv w = (if \<not> opencodeClient w then startOpenCode senv w else (None, w))"

subsection \<open>The monitor runner\<close>

text \<open>
  The \<open>try\<close> block of \<open>runMonitor\<close>: \<open>Inl\<close> is the exception it throws, \<open>Inr\<close> the
  world after the two statements that follow the reads of the pipes. The exit status of
  the process is not read.
\<close>

definition monitor_try :: "ShellResult \<Rightarrow> World \<Rightarrow> string + World" where
  "monitor_try r w =
     (case r of
        ShellThrows e \<Rightarrow> Inl e
      | ShellOutput output stderr status \<Rightarrow>
          (let w1 = w\<lparr>state := (state w)\<lparr>monitorOutput :=
                        output @ (if stderr \<noteq> [] then ''\<newline>[stderr]\<newline>'' @ stderr else [])\<rparr>\<rparr>
           in Inr (broadcast (EvMonitor (monitorOutput (state w1))) w1)))"

definition runMonitor :: "IterEnv \<Rightarrow> World \<Rightarrow> World" where
  "runMonitor env w =
     (case monitor (config w) of
        None \<Rightarrow> w
      | Some command \<Rightarrow>
          (let w0 = suspend (monitor_wait env) w in
           case monitor_try (shell env command) w0 of
             Inr w1 \<Rightarrow> w1
           | Inl err \<Rightarrow>
               (let w1 = w0\<lparr>state := (state w0)\<lparr>monitorOutput := ''Error running monitor: '' @ err\<rparr>\<rparr>
                in broadcast (EvMonitor (monitorOutput (state w1))) w1)))"

subsection \<open>The prompt builder\<close>

text \<open>
  \<open>buildPrompt\<close> pushes onto \<open>sections\<close> statement by statement; a string is truthy
  when it is not empty.
\<close>

definition prompt_sections :: "LoopConfig \<Rightarrow> LoopState \<Rightarrow> string list" where
  "prompt_sections c s =
     (let sections0 = [];
          sections1 = (if persistent c \<noteq> []
                       then sections0 @ [''## Persistent Memory\<newline>'' @ persistent c]
                       else sections0);
          sections2 = (if working c \<noteq> []
                       then sections1 @ [''## Working Memory (this iteration only)\<newline>'' @ working c]
                       else sections1);
          sections3 = (if monitorOutput s \<noteq> []
                       then sections2 @ [''## Monitor Output\<newline>```\<newline>'' @ monitorOutput s @ ''\<newline>```'']
                       else sections2);
          sections4 = (if lastOutput s \<noteq> []
                       then sections3 @ [''## Previous Response\<newline>'' @ lastOutput s]
                       else sections3);
          sections5 = sections4 @ [''## Current Task\<newline>'' @ user c];
          sections6 = sections5 @ [''\<newline>---\<newline>Iteration: '' @ string_of_nat (iteration s)]
      in sections6)"

definition buildPrompt :: "LoopConfig \<Rightarrow> LoopState \<Rightarrow> string" where
  "buildPrompt c s = join ''\<newline>\<newline>'' (prompt_sections c s)"

fun part_text :: "Part \<Rightarrow> string option" where
  "part_text (TextPart t) = Some t"
| "part_text (OtherPart k) = None"

definition extractResponse :: "Part list \<Rightarrow> string" where
  "extractResponse parts = join ''\<newline>'' (List.map_filter part_text parts)"

subsection \<open>The loop\<close>

text \<open>\<open>state.history.push(e); if (state.history.length > 100) state.history.shift()\<close>\<close>

definition push_history :: "HistoryEntry \<Rightarrow> HistoryEntry list \<Rightarrow> HistoryEntry list" where
  "push_history e h = (let h1 = h @ [e] in if length h1 > 100 then tl h1 else h1)"

text \<open>
  The \<open>try\<close>/\<open>catch\<close> around the dispatch of the prompt (lines 147 to 175), after the
  call has settled.
\<close>

definition dispatch :: "PromptResult \<Rightarrow> string \<Rightarrow> World \<Rightarrow> World" where
  "dispatch r prompt w =
     (case r of
        PromptData parts \<Rightarrow>
          (let response = extractResponse parts;
               w1 = w\<lparr>state := (state w)\<lparr>lastOutput := response\<rparr>\<rparr>;
               w2 = w1\<lparr>state := (state w1)\<lparr>history :=
                        push_history \<lparr>h_iteration = iteration (state w1), h_prompt = prompt,
                                      h_response = response, h_timestamp = clock w1\<rparr>
                                     (history (state w1))\<rparr>\<rparr>
           in broadcast (EvResponse response (iteration (state w2))) w2)
      | PromptNoData \<Rightarrow> w
      | PromptThrows err \<Rightarrow> broadcast (EvError err (Some (iteration (state w)))) w)"

text \<open>
  Lines 130 to 178 of the loop body: from the increment of the counter to the state
  snapshot, to the error event when no session was created, or to the rejection of
  \<open>session.create\<close>, which is awaited outside every \<open>try\<close>.
\<close>

definition iteration_work :: "IterEnv \<Rightarrow> World \<Rightarrow> Flow \<times> World" where
  "iteration_work env w =
     (let w1 = w\<lparr>state := (state w)\<lparr>iteration := iteration (state w) + 1\<rparr>\<rparr>;
          w2 = broadcast (EvIteration (iteration (state w1))) w1;
          w3 = runMonitor env w2;
          w4 = suspend (session_wait env) w3
      in case session_result env of
           SessionThrows err \<Rightarrow> (Rejected err, w4)
         | SessionNoData \<Rightarrow> (NoSession, broadcast (EvError ''Failed to create session'' None) w4)
         | SessionData sid \<Rightarrow>
             (let w5 = w4\<lparr>state := (state w4)\<lparr>sessionID := Some sid\<rparr>\<rparr>;
                  prompt = buildPrompt (config w5) (state w5);
                  w6 = broadcast (EvPrompt prompt (iteration (state w5))) w5;
                  w7 = suspend (prompt_wait env) w6;
                  w8 = dispatch (prompt_result env) prompt w7;
                  w9 = w8\<lparr>config := (config w8)\<lparr>working := []\<rparr>\<rparr>
              in (Snapshot, broadcast (EvState (state w9)) w9)))"

text \<open>
  One pass through the loop body, with its pacing: \<open>await sleep(config.interval); continue\<close>
  when no session was created, \<open>if (state.running) await sleep(config.interval)\<close> at the
  end of the body. The first component is the exception that ends \<open>runLoop\<close>, if any.
\<close>

definition loop_body :: "IterEnv \<Rightarrow> World \<Rightarrow> string option \<times> World" where
  "loop_body env w =
     (case iteration_work env w of
        (Rejected err, w1) \<Rightarrow> (Some err, w1)
      | (NoSession, w1) \<Rightarrow> (None, sleep (interval (config w1)) (sleep_requests env) w1)
      | (Snapshot, w1) \<Rightarrow>
          (None, if running (state w1) then sleep (interval (config w1)) (sleep_requests env) w1
                 else w1))"

text \<open>Lines 185 and 186.\<close>

definition finish :: "World \<Rightarrow> World" where
  "finish w = broadcast EvStopped (w\<lparr>state := (state w)\<lparr>running := False\<rparr>\<rparr>)"

text \<open>
  The \<open>while\<close> loop with what follows it. The script holds the surroundings of the
  passes to come; the loop may go on for ever, and \<open>Pending\<close> is the loop that is alive
  when the script ends. An exception thrown in the body leaves \<open>runLoop\<close> at once:
  lines 185 and 186 are not reached.
\<close>

fun loop :: "IterEnv list \<Rightarrow> World \<Rightarrow> Outcome \<times> World" where
  "loop [] w =
     (case loopAbort w of
        None \<Rightarrow> (if running (state w) then (Threw ''TypeError'', w) else (Completed, finish w))
      | Some aborted \<Rightarrow>
          if running (state w) \<and> \<not> aborted then
            if maxIterations (config w) > 0 \<and> int (iteration (state w)) \<ge> maxIterations (config w)
            then (Completed, finish (w\<lparr>state := (state w)\<lparr>running := False\<rparr>\<rparr>))
            else (Pending, w)
          else (Completed, finish w))"
| "loop (env # script) w =
     (case loopAbort w of
        None \<Rightarrow> (if running (state w) then (Threw ''TypeError'', w) else (Completed, finish w))
      | Some aborted \<Rightarrow>
          if running (state w) \<and> \<not> aborted then
            if maxIterations (config w) > 0 \<and> int (iteration (state w)) \<ge> maxIterations (config w)
            then (Completed, finish (w\<lparr>state := (state w)\<lparr>running := False\<rparr>\<rparr>))
            else (case loop_body env w of
                    (Some err, w1) \<Rightarrow> (Threw err, w1)
                  | (None, w1) \<Rightarrow> loop script w1)
          else (Completed, finish w))"

text \<open>\<open>runLoop\<close>: lines 113 to 122, then the loop.\<close>

definition runLoop :: "StartEnv \<Rightarrow> IterEnv list \<Rightarrow> World \<Rightarrow> Outcome \<times> World" where
  "runLoop senv script w =
     (case ensure_client senv w of
        (Some err, w1) \<Rightarrow> (Threw err, w1)
      | (None, w1) \<Rightarrow>
          if \<not> opencodeClient w1 then (Threw ''Error: Failed to start OpenCode'', w1)
          else
            (let w2 = w1\<lparr>state := (state w1)\<lparr>running := True\<rparr>\<rparr>;
                 w3 = w2\<lparr>state := (state w2)\<lparr>iteration := 0\<rparr>\<rparr>;
                 w4 = w3\<lparr>loopAbort := Some False\<rparr>;
                 w5 = broadcast (EvState (state w4)) w4
             in loop script w5))"

text \<open>
  The handler of \<open>POST /api/start\<close>, \<open>if (!state.running) runLoop().catch(console.error)\<close>,
  served while no loop is suspended, together with the run it starts.
\<close>

definition api_start :: "StartEnv \<Rightarrow> IterEnv list \<Rightarrow> World \<Rightarrow> World" where
  "api_start senv script w =
     (if \<not> running (state w) then
        (case runLoop senv script w of
           (Threw err, w1) \<Rightarrow> w1\<lparr>console := console w1 @ [err]\<rparr>
         | (_, w1) \<Rightarrow> w1)
      else w)"

subsection \<open>Listing the models\<close>

record Provider =
  provider_id :: string
  provider_models :: "(string \<times> string) list option"

datatype ProvidersResult = ProvidersThrow string | ProvidersNoData | ProvidersData "Provider list"

type_synonym ModelInfo = "string \<times> string \<times> string"

text \<open>The two nested \<open>for\<close> loops of \<open>fetchModels\<close>, pushing onto \<open>result\<close>.\<close>

fun push_models :: "string \<Rightarrow> (string \<times> string) list \<Rightarrow> ModelInfo list \<Rightarrow> ModelInfo list" where
  "push_models pid [] result = result"
| "push_models pid ((mid, name) # ms) result = push_models pid ms (result @ [(pid, mid, name)])"

fun push_providers :: "Provider list \<Rightarrow> ModelInfo list \<Rightarrow> ModelInfo list" where
  "push_providers [] result = result"
| "push_providers (p # ps) result =
     push_providers ps
       (case provider_models p of None \<Rightarrow> result | Some ms \<Rightarrow> push_models (provider_id p) ms result)"

text \<open>
  \<open>fetchModels\<close>: \<open>Inl\<close> is the exception with which the promise rejects, \<open>Inr\<close> the list
  it resolves to.
\<close>

definition fetchModels :: "StartEnv \<Rightarrow> ProvidersResult \<Rightarrow> World \<Rightarrow> (string + ModelInfo list) \<times> World" where
  "fetchModels senv pr w =
     (case ensure_client senv w of
        (Some err, w1) \<Rightarrow> (Inl err, w1)
      | (None, w1) \<Rightarrow>
          if \<not> opencodeClient w1 then (Inr [], w1)
          else (case pr of
                  ProvidersThrow e \<Rightarrow> (Inr [], w1)
                | ProvidersNoData \<Rightarrow> (Inr [], w1)
                | ProvidersData all \<Rightarrow> (Inr (push_providers all []), w1)))"

subsection \<open>The process at its start\<close>

definition initial_state :: LoopState where
  "initial_state =
     \<lparr> running = False, iteration = 0, sessionID = None, lastOutput = [],
       monitorOutput = [], history = [] \<rparr>"

definition initial_config :: LoopConfig where
  "initial_config =
     \<lparr> model = \<lparr> providerID = ''anthropic'', modelID = ''claude-sonnet-4-20250514'' \<rparr>,
       system = ''You are a helpful assistant running in a continuous loop. You have access to working memory (cleared each iteration) and persistent memory (maintained across iterations).'',
       user = ''Analyze the current state and take appropriate action.'',
       working = [], persistent = [], monitor = None, interval = 5000,
       maxIterations = 0, autoApprove = True \<rparr>"

definition initial_world :: World where
  "initial_world =
     \<lparr> config = initial_config, state = initial_state, opencodeServer = False,
       opencodeClient = False, loopAbort = None, events = [], console = [], clock = 0 \<rparr>"

subsection \<open>Observations on the event stream\<close>

text \<open>The numbers of the \<open>iteration\<close> events of a stream, and how many \<open>stopped\<close> it holds.\<close>

definition iterations_of :: "Event list \<Rightarrow> nat list" where
  "iterations_of evs = List.map_filter (\<lambda>e. case e of EvIteration n \<Rightarrow> Some n | _ \<Rightarrow> None) evs"

definition stops_of :: "Event list \<Rightarrow> nat" where
  "stops_of evs = length (filter (\<lambda>e. e = EvStopped) evs)"

subsection \<open>Runs that are left alone\<close>

text \<open>
  A request stops the run when it is \<open>POST /api/stop\<close>, and moves the ceiling when it
  is a \<open>POST /api/config\<close> whose body has \<open>maxIterations\<close>. A pass is undisturbed when
  none of the requests served during its suspensions does either. \<open>POST /api/start\<close>
  is the request that can start a loop.
\<close>

fun stops_run :: "Request \<Rightarrow> bool" where
  "stops_run PostStop = True"
| "stops_run _ = False"

fun starts_run :: "Request \<Rightarrow> bool" where
  "starts_run PostStart = True"
| "starts_run _ = False"

fun sets_max :: "Request \<Rightarrow> bool" where
  "sets_max (PostConfig p) = (p_maxIterations p \<noteq> None)"
| "sets_max _ = False"

definition env_requests :: "IterEnv \<Rightarrow> Request list" where
  "env_requests env =
     snd (monitor_wait env) @ snd (session_wait env) @ snd (prompt_wait env) @ sleep_requests env"

definition undisturbed :: "IterEnv \<Rightarrow> bool" where
  "undisturbed env = (\<not> list_ex stops_run (env_requests env) \<and> \<not> list_ex sets_max (env_requests env))"

text \<open>A pass with no request at all, a session and an answer.\<close>

definition quiet_env :: IterEnv where
  "quiet_env =
     \<lparr> shell = (\<lambda>command. ShellOutput [] [] 0), monitor_wait = (0, []),
       session_result = SessionData ''ses_1'', session_wait = (0, []),
       prompt_result = PromptData [TextPart ''done''], prompt_wait = (0, []),
       sleep_requests = [] \<rparr>"

text \<open>A pass in which \<open>session.create\<close> does not reject.\<close>

definition session_resolves :: "IterEnv \<Rightarrow> bool" where
  "session_resolves env = (case session_result env of SessionThrows err \<Rightarrow> False | _ \<Rightarrow> True)"

text \<open>A pass in which a session is created and the prompt call yields data.\<close>

definition successful :: "IterEnv \<Rightarrow> bool" where
  "successful env =
     (case session_result env of
        SessionData sid \<Rightarrow> (case prompt_result env of PromptData parts \<Rightarrow> True | _ \<Rightarrow> False)
      | _ \<Rightarrow> False)"

text \<open>The error events of a stream: message and iteration number.\<close>

definition errors_of :: "Event list \<Rightarrow> (string \<times> nat option) list" where
  "errors_of evs = List.map_filter (\<lambda>e. case e of EvError m i \<Rightarrow> Some (m, i) | _ \<Rightarrow> None) evs"

subsection \<open>The specification's words\<close>

text \<open>The \<open>n\<close> elements of a list that were appended last.\<close>

definition newest :: "nat \<Rightarrow> 'a list \<Rightarrow> 'a list" where
  "newest n xs = drop (length xs - n) xs"

text \<open>
  The prompt as the specification describes it: a section is there when its source text
  is not empty; the order is persistent memory, working memory, monitor output between
  fences, previous response; the task and the iteration marker always follow.
\<close>

definition optional_section :: "string \<Rightarrow> string \<Rightarrow> string \<Rightarrow> string list" where
  "optional_section header source footer = (if source = [] then [] else [header @ source @ footer])"

definition spec_sections :: "LoopConfig \<Rightarrow> LoopState \<Rightarrow> string list" where
  "spec_sections c s =
     optional_section ''## Persistent Memory\<newline>'' (persistent c) []
     @ optional_section ''## Working Memory (this iteration only)\<newline>'' (working c) []
     @ optional_section ''## Monitor Output\<newline>```\<newline>'' (monitorOutput s) ''\<newline>```''
     @ optional_section ''## Previous Response\<newline>'' (lastOutput s) []
     @ [''## Current Task\<newline>'' @ user c,
        ''\<newline>---\<newline>Iteration: '' @ string_of_nat (iteration s)]"


subsection \<open>Sample surroundings and stores\<close>

text \<open>
  Passes in which no session is created, \<open>session.create\<close> rejects, the prompt call
  resolves without data, the prompt call rejects, a stop request arrives while the pacing
  timer runs, a stop request and then a start request arrive while it runs, and the
  monitor command is one that \<open>sh\<close> does not find.
\<close>

definition rejecting_env :: IterEnv where
  "rejecting_env = quiet_env\<lparr>session_result := SessionThrows ''TypeError: fetch failed''\<rparr>"

definition restarting_env :: IterEnv where
  "restarting_env = quiet_env\<lparr>sleep_requests := [PostStop, PostStart]\<rparr>"

definition not_found_env :: IterEnv where
  "not_found_env =
     quiet_env\<lparr>shell := (\<lambda>command. ShellOutput [] ''sh: 1: nosuchcmd: not found\<newline>'' 127)\<rparr>"


definition no_data_env :: IterEnv where
  "no_data_env = quiet_env\<lparr>prompt_result := PromptNoData\<rparr>"

definition throwing_env :: IterEnv where
  "throwing_env = quiet_env\<lparr>prompt_result := PromptThrows ''Error: fetch failed''\<rparr>"

definition stopping_env :: IterEnv where
  "stopping_env = quiet_env\<lparr>sleep_requests := [PostStop]\<rparr>"

text \<open>
  The store with a note in working memory, the store of a run in progress, the store
  that holds the output of a monitor command configured earlier, the store with a
  ceiling of three passes, and the store with a monitor command.
\<close>

definition capped_world :: World where
  "capped_world = initial_world\<lparr>config := initial_config\<lparr>maxIterations := 3\<rparr>\<rparr>"

definition monitored_world :: World where
  "monitored_world = initial_world\<lparr>config := initial_config\<lparr>monitor := Some ''nosuchcmd''\<rparr>\<rparr>"


definition running_world :: World where
  "running_world = initial_world\<lparr>state := initial_state\<lparr>running := True\<rparr>, opencodeServer := True,
      opencodeClient := True, loopAbort := Some False\<rparr>"


section \<open>Properties\<close>

subsection \<open>event streams\<close>

lemma iterations_of_append [simp]: "iterations_of (xs @ ys) = iterations_of xs @ iterations_of ys"
  by (simp add: iterations_of_def map_filter_def)

lemma stops_of_append [simp]: "stops_of (xs @ ys) = stops_of xs + stops_of ys"
  by (simp add: stops_of_def)

lemma iterations_of_simps [simp]:
  "iterations_of [] = []"
  "iterations_of [EvIteration n] = [n]"
  "iterations_of [EvState s] = []"
  "iterations_of [EvMonitor m] = []"
  "iterations_of [EvError e i] = []"
  "iterations_of [EvPrompt p k] = []"
  "iterations_of [EvResponse p k] = []"
  "iterations_of [EvConfig c] = []"
  "iterations_of [EvStopped] = []"
  by (simp_all add: iterations_of_def map_filter_def)

lemma stops_of_simps [simp]:
  "stops_of [] = 0"
  "stops_of [EvIteration n] = 0"
  "stops_of [EvState s] = 0"
  "stops_of [EvMonitor m] = 0"
  "stops_of [EvError e i] = 0"
  "stops_of [EvPrompt p k] = 0"
  "stops_of [EvResponse p k] = 0"
  "stops_of [EvConfig c] = 0"
  "stops_of [EvStopped] = 1"
  by (simp_all add: stops_of_def)

subsection \<open>broadcast\<close>

lemma broadcast_fields [simp]:
  "events (broadcast ev w) = events w @ [ev]"
  "state (broadcast ev w) = state w"
  "config (broadcast ev w) = config w"
  "loopAbort (broadcast ev w) = loopAbort w"
  "clock (broadcast ev w) = clock w"
  "console (broadcast ev w) = console w"
  "opencodeClient (broadcast ev w) = opencodeClient w"
  "opencodeServer (broadcast ev w) = opencodeServer w"
  by (simp_all add: broadcast_def)

subsection \<open>requests\<close>

text \<open>The start request.\<close>

lemma start_kept [simp]:
  "history (state (start_while_suspended w)) = history (state w)"
  "lastOutput (state (start_while_suspended w)) = lastOutput (state w)"
  "monitorOutput (state (start_while_suspended w)) = monitorOutput (state w)"
  "sessionID (state (start_while_suspended w)) = sessionID (state w)"
  "clock (start_while_suspended w) = clock w"
  "opencodeClient (start_while_suspended w) = opencodeClient w"
  "opencodeServer (start_while_suspended w) = opencodeServer w"
  "config (start_while_suspended w) = config w"
  "stops_of (events (start_while_suspended w)) = stops_of (events w)"
  by (simp_all add: Let_def start_while_suspended_def stops_of_def)


lemma start_running [simp]: "running (state w) \<Longrightarrow> start_while_suspended w = w"
  by (simp add: start_while_suspended_def)

text \<open>What no request touches.\<close>

lemma handle_request_kept [simp]:
  "history (state (handle_request r w)) = history (state w)"
  "lastOutput (state (handle_request r w)) = lastOutput (state w)"
  "monitorOutput (state (handle_request r w)) = monitorOutput (state w)"
  "sessionID (state (handle_request r w)) = sessionID (state w)"
  "clock (handle_request r w) = clock w"
  "opencodeClient (handle_request r w) = opencodeClient w"
  "opencodeServer (handle_request r w) = opencodeServer w"
  "stops_of (events (handle_request r w)) = stops_of (events w)"
  by (cases r; simp add: Let_def)+

lemma handle_request_max:
  "\<not> sets_max r \<Longrightarrow> maxIterations (config (handle_request r w)) = maxIterations (config w)"
  by (cases r) (simp_all add: Let_def merge_config_def)


text \<open>While the running flag is set, a request other than a stop leaves the run state alone.\<close>

lemma handle_request_calm:
  assumes "running (state w)" and "\<not> stops_run r"
  shows "state (handle_request r w) = state w"
    and "loopAbort (handle_request r w) = loopAbort w"
    and "iterations_of (events (handle_request r w)) = iterations_of (events w)"
  using assms by (cases r; simp add: Let_def)+

text \<open>Requests other than a start.\<close>

lemma handle_request_no_start:
  assumes "\<not> starts_run r"
  shows "state (handle_request r w) = (if stops_run r then (state w)\<lparr>running := False\<rparr> else state w)"
    and "loopAbort (handle_request r w) =
           (if stops_run r then (case loopAbort w of None \<Rightarrow> None | Some _ \<Rightarrow> Some True)
            else loopAbort w)"
    and "iterations_of (events (handle_request r w)) = iterations_of (events w)"
    and "console (handle_request r w) = console w"
  using assms by (cases r; simp add: Let_def)+

lemma serve_kept [simp]:
  "history (state (fold handle_request rs w)) = history (state w)"
  "lastOutput (state (fold handle_request rs w)) = lastOutput (state w)"
  "monitorOutput (state (fold handle_request rs w)) = monitorOutput (state w)"
  "sessionID (state (fold handle_request rs w)) = sessionID (state w)"
  "clock (fold handle_request rs w) = clock w"
  "opencodeClient (fold handle_request rs w) = opencodeClient w"
  "opencodeServer (fold handle_request rs w) = opencodeServer w"
  "stops_of (events (fold handle_request rs w)) = stops_of (events w)"
  by (induction rs arbitrary: w; simp)+

lemma serve_max:
  "\<not> list_ex sets_max rs \<Longrightarrow>
   maxIterations (config (fold handle_request rs w)) = maxIterations (config w)"
  by (induction rs arbitrary: w) (simp_all add: handle_request_max)


lemma serve_calm:
  assumes "running (state w)" and "\<not> list_ex stops_run rs"
  shows "state (fold handle_request rs w) = state w
       \<and> loopAbort (fold handle_request rs w) = loopAbort w
       \<and> iterations_of (events (fold handle_request rs w)) = iterations_of (events w)"
  using assms
proof (induction rs arbitrary: w)
  case Nil
  show ?case by simp
next
  case (Cons r rs)
  from Cons.prems have r: "\<not> stops_run r" and rs: "\<not> list_ex stops_run rs" by simp_all
  note one = handle_request_calm [OF Cons.prems(1) r]
  have "running (state (handle_request r w))" using one(1) Cons.prems(1) by simp
  from Cons.IH [OF this rs] one show ?case by simp
qed

lemma serve_no_start:
  assumes "\<not> list_ex starts_run rs"
  shows "state (fold handle_request rs w) =
           (if list_ex stops_run rs then (state w)\<lparr>running := False\<rparr> else state w)
       \<and> iterations_of (events (fold handle_request rs w)) = iterations_of (events w)"
  using assms
proof (induction rs arbitrary: w)
  case Nil
  show ?case by simp
next
  case (Cons r rs)
  from Cons.prems have r: "\<not> starts_run r" and rs: "\<not> list_ex starts_run rs" by simp_all
  from Cons.IH [OF rs, of "handle_request r w"] handle_request_no_start(1,3) [OF r, of w]
  show ?case by simp
qed

subsection \<open>suspension\<close>

lemma suspend_kept [simp]:
  "history (state (suspend wt w)) = history (state w)"
  "lastOutput (state (suspend wt w)) = lastOutput (state w)"
  "monitorOutput (state (suspend wt w)) = monitorOutput (state w)"
  "sessionID (state (suspend wt w)) = sessionID (state w)"
  "clock (suspend wt w) = clock w + fst wt"
  "opencodeClient (suspend wt w) = opencodeClient w"
  "opencodeServer (suspend wt w) = opencodeServer w"
  "stops_of (events (suspend wt w)) = stops_of (events w)"
  "events (suspend wt w) = events (fold handle_request (snd wt) w)"
  "config (suspend wt w) = config (fold handle_request (snd wt) w)"
  "state (suspend wt w) = state (fold handle_request (snd wt) w)"
  "loopAbort (suspend wt w) = loopAbort (fold handle_request (snd wt) w)"
  by (simp_all add: suspend_def)


lemma suspend_calm:
  assumes "running (state w)" and "\<not> list_ex stops_run (snd wt)"
  shows "state (suspend wt w) = state w"
    and "loopAbort (suspend wt w) = loopAbort w"
    and "iterations_of (events (suspend wt w)) = iterations_of (events w)"
  using serve_calm [OF assms] by simp_all

subsection \<open>monitor\<close>

lemma runMonitor_kept [simp]:
  "history (state (runMonitor env w)) = history (state w)"
  "lastOutput (state (runMonitor env w)) = lastOutput (state w)"
  "opencodeClient (runMonitor env w) = opencodeClient w"
  "stops_of (events (runMonitor env w)) = stops_of (events w)"
  by (simp_all add: runMonitor_def monitor_try_def Let_def
       split: option.splits ShellResult.splits)

lemma runMonitor_calm:
  assumes "running (state w)" and "\<not> list_ex stops_run (snd (monitor_wait env))"
  shows "running (state (runMonitor env w))"
    and "iteration (state (runMonitor env w)) = iteration (state w)"
    and "loopAbort (runMonitor env w) = loopAbort w"
    and "iterations_of (events (runMonitor env w)) = iterations_of (events w)"
  using assms(1) serve_calm [OF assms]
  by (simp_all add: runMonitor_def monitor_try_def Let_def
       split: option.splits ShellResult.splits)

lemma runMonitor_max:
  assumes "\<not> list_ex sets_max (snd (monitor_wait env))"
  shows "maxIterations (config (runMonitor env w)) = maxIterations (config w)"
  using assms
  by (simp add: runMonitor_def monitor_try_def Let_def serve_max
       split: option.splits ShellResult.splits)

subsection \<open>dispatch\<close>

lemma dispatch_events [simp]:
  "iterations_of (events (dispatch r p w)) = iterations_of (events w)"
  "stops_of (events (dispatch r p w)) = stops_of (events w)"
  by (simp_all add: dispatch_def Let_def split: PromptResult.splits)

lemma dispatch_kept [simp]:
  "iteration (state (dispatch r p w)) = iteration (state w)"
  "running (state (dispatch r p w)) = running (state w)"
  "monitorOutput (state (dispatch r p w)) = monitorOutput (state w)"
  "loopAbort (dispatch r p w) = loopAbort w"
  "config (dispatch r p w) = config w"
  "clock (dispatch r p w) = clock w"
  "opencodeClient (dispatch r p w) = opencodeClient w"
  by (simp_all add: dispatch_def Let_def split: PromptResult.splits)

subsection \<open>one pass\<close>

lemma iteration_work_stops [simp]:
  "stops_of (events (snd (iteration_work env w))) = stops_of (events w)"
  by (simp add: iteration_work_def Let_def split: SessionResult.splits)

lemma sleep_kept [simp]:
  "history (state (sleep ms rs w)) = history (state w)"
  "lastOutput (state (sleep ms rs w)) = lastOutput (state w)"
  "monitorOutput (state (sleep ms rs w)) = monitorOutput (state w)"
  "stops_of (events (sleep ms rs w)) = stops_of (events w)"
  "clock (sleep ms rs w) = clock w + timer_delay ms"
  by (simp_all add: sleep_def)

lemma loop_body_stops [simp]:
  "stops_of (events (snd (loop_body env w))) = stops_of (events w)"
proof -
  have "stops_of (events (snd (loop_body env w))) = stops_of (events (snd (iteration_work env w)))"
    by (cases "iteration_work env w") (simp add: loop_body_def split: Flow.splits)
  then show ?thesis by simp
qed

text \<open>
  A pass that no request disturbs, entered with the running flag set: the flag, the abort
  controller and the ceiling are as before, and the counter has moved by one.
\<close>

lemma iteration_work_undisturbed:
  assumes "undisturbed env" and "running (state w)"
  shows "running (state (snd (iteration_work env w)))"
    and "loopAbort (snd (iteration_work env w)) = loopAbort w"
    and "maxIterations (config (snd (iteration_work env w))) = maxIterations (config w)"
    and "iteration (state (snd (iteration_work env w))) = Suc (iteration (state w))"
    and "iterations_of (events (snd (iteration_work env w))) =
           iterations_of (events w) @ [Suc (iteration (state w))]"
proof -
  define w2 where "w2 = broadcast (EvIteration (Suc (iteration (state w))))
                           (w\<lparr>state := (state w)\<lparr>iteration := Suc (iteration (state w))\<rparr>\<rparr>)"
  define w3 where "w3 = runMonitor env w2"
  define w4 where "w4 = suspend (session_wait env) w3"
  from assms(1) have q: "\<not> list_ex stops_run (snd (monitor_wait env))"
      "\<not> list_ex stops_run (snd (session_wait env))"
      "\<not> list_ex stops_run (snd (prompt_wait env))"
      "\<not> list_ex sets_max (snd (monitor_wait env))"
      "\<not> list_ex sets_max (snd (session_wait env))"
      "\<not> list_ex sets_max (snd (prompt_wait env))"
    by (simp_all add: undisturbed_def env_requests_def)
  have r2: "running (state w2)" using assms(2) by (simp add: w2_def)
  have f3: "running (state w3)" "iteration (state w3) = Suc (iteration (state w))"
      "loopAbort w3 = loopAbort w"
      "iterations_of (events w3) = iterations_of (events w) @ [Suc (iteration (state w))]"
      "maxIterations (config w3) = maxIterations (config w)"
    using runMonitor_calm [OF r2 q(1)] runMonitor_max [OF q(4), of w2]
    by (simp_all add: w3_def) (simp_all add: w2_def)
  have f4: "running (state w4)" "iteration (state w4) = Suc (iteration (state w))"
      "loopAbort w4 = loopAbort w"
      "iterations_of (events w4) = iterations_of (events w) @ [Suc (iteration (state w))]"
      "maxIterations (config w4) = maxIterations (config w)"
    using suspend_calm [OF f3(1) q(2)] f3 serve_max [OF q(5), of w3]
    by (simp_all add: w4_def)
  have all: "running (state (snd (iteration_work env w)))
      \<and> loopAbort (snd (iteration_work env w)) = loopAbort w
      \<and> maxIterations (config (snd (iteration_work env w))) = maxIterations (config w)
      \<and> iteration (state (snd (iteration_work env w))) = Suc (iteration (state w))
      \<and> iterations_of (events (snd (iteration_work env w))) =
           iterations_of (events w) @ [Suc (iteration (state w))]"
  proof (cases "session_result env")
    case (SessionData sid)
    define w5 where "w5 = w4\<lparr>state := (state w4)\<lparr>sessionID := Some sid\<rparr>\<rparr>"
    define w6 where "w6 = broadcast (EvPrompt (buildPrompt (config w5) (state w5)) (iteration (state w5))) w5"
    define w7 where "w7 = suspend (prompt_wait env) w6"
    define w8 where "w8 = dispatch (prompt_result env) (buildPrompt (config w5) (state w5)) w7"
    have f6: "running (state w6)" "iteration (state w6) = Suc (iteration (state w))"
      "loopAbort w6 = loopAbort w"
      "iterations_of (events w6) = iterations_of (events w) @ [Suc (iteration (state w))]"
      "maxIterations (config w6) = maxIterations (config w)"
      using f4 by (simp_all add: w6_def w5_def)
    have f8: "running (state w8)" "iteration (state w8) = Suc (iteration (state w))"
      "loopAbort w8 = loopAbort w"
      "iterations_of (events w8) = iterations_of (events w) @ [Suc (iteration (state w))]"
      "maxIterations (config w8) = maxIterations (config w)"
      using suspend_calm [OF f6(1) q(3)] f6 serve_max [OF q(6), of w6]
      by (simp_all add: w8_def w7_def)
    have res: "snd (iteration_work env w) =
             broadcast (EvState (state (w8\<lparr>config := (config w8)\<lparr>working := []\<rparr>\<rparr>)))
               (w8\<lparr>config := (config w8)\<lparr>working := []\<rparr>\<rparr>)"
      using SessionData
      by (simp add: iteration_work_def Let_def w2_def w3_def w4_def w5_def w6_def w7_def w8_def)
    show ?thesis using f8 by (simp add: res)
  next
    case SessionNoData
    then have res: "snd (iteration_work env w) = broadcast (EvError ''Failed to create session'' None) w4"
      by (simp add: iteration_work_def Let_def w2_def w3_def w4_def)
    show ?thesis using f4 by (simp add: res)
  next
    case (SessionThrows err)
    then have res: "snd (iteration_work env w) = w4"
      by (simp add: iteration_work_def Let_def w2_def w3_def w4_def)
    show ?thesis using f4 by (simp add: res)
  qed
then show "running (state (snd (iteration_work env w)))"
    and "loopAbort (snd (iteration_work env w)) = loopAbort w"
    and "maxIterations (config (snd (iteration_work env w))) = maxIterations (config w)"
    and "iteration (state (snd (iteration_work env w))) = Suc (iteration (state w))"
    and "iterations_of (events (snd (iteration_work env w))) =
           iterations_of (events w) @ [Suc (iteration (state w))]"
    by simp_all
qed

lemma iteration_work_flow:
  "fst (iteration_work env w) =
     (case session_result env of
        SessionData sid \<Rightarrow> Snapshot | SessionNoData \<Rightarrow> NoSession | SessionThrows err \<Rightarrow> Rejected err)"
  by (simp add: iteration_work_def Let_def split: SessionResult.splits)

lemma loop_body_thrown:
  "fst (loop_body env w) =
     (case session_result env of SessionThrows err \<Rightarrow> Some err | _ \<Rightarrow> None)"
  using iteration_work_flow [of env w]
  by (cases "iteration_work env w") (simp add: loop_body_def split: SessionResult.splits Flow.splits)

lemma loop_body_rejected:
  "session_result env = SessionThrows err \<Longrightarrow> loop_body env w = (Some err, snd (iteration_work env w))"
  using iteration_work_flow [of env w]
  by (cases "iteration_work env w") (simp add: loop_body_def)

lemma loop_body_undisturbed:
  assumes "undisturbed env" and "running (state w)" and "session_resolves env"
  shows "fst (loop_body env w) = None"
    and "running (state (snd (loop_body env w)))"
    and "loopAbort (snd (loop_body env w)) = loopAbort w"
    and "maxIterations (config (snd (loop_body env w))) = maxIterations (config w)"
    and "iteration (state (snd (loop_body env w))) = Suc (iteration (state w))"
    and "iterations_of (events (snd (loop_body env w))) =
           iterations_of (events w) @ [Suc (iteration (state w))]"
proof -
  obtain fl w1 where iw: "iteration_work env w = (fl, w1)" by (cases "iteration_work env w")
  note f1 = iteration_work_undisturbed [OF assms(1,2), unfolded iw snd_conv]
  from assms(1) have q: "\<not> list_ex stops_run (sleep_requests env)"
      "\<not> list_ex sets_max (sleep_requests env)"
    by (simp_all add: undisturbed_def env_requests_def)
  define w2 where "w2 = sleep (interval (config w1)) (sleep_requests env) w1"
  have f2: "running (state w2)" "loopAbort w2 = loopAbort w"
      "maxIterations (config w2) = maxIterations (config w)"
      "iteration (state w2) = Suc (iteration (state w))"
      "iterations_of (events w2) = iterations_of (events w) @ [Suc (iteration (state w))]"
    using suspend_calm [OF f1(1), of "(timer_delay (interval (config w1)), sleep_requests env)"]
          q f1 serve_max [OF q(2), of w1]
    by (simp_all add: w2_def sleep_def)
  have fl: "fl = Snapshot \<or> fl = NoSession"
    using iteration_work_flow [of env w] assms(3)
    by (simp add: iw session_resolves_def split: SessionResult.splits)
  have lb: "loop_body env w = (None, w2)"
    using fl f1(1) by (auto simp add: loop_body_def iw w2_def)
  show "fst (loop_body env w) = None"
    and "running (state (snd (loop_body env w)))"
    and "loopAbort (snd (loop_body env w)) = loopAbort w"
    and "maxIterations (config (snd (loop_body env w))) = maxIterations (config w)"
    and "iteration (state (snd (loop_body env w))) = Suc (iteration (state w))"
    and "iterations_of (events (snd (loop_body env w))) =
           iterations_of (events w) @ [Suc (iteration (state w))]"
    using f2 by (simp_all add: lb)
qed

subsection \<open>the loop\<close>

lemma finish_fields [simp]:
  "events (finish w) = events w @ [EvStopped]"
  "running (state (finish w)) = False"
  "iteration (state (finish w)) = iteration (state w)"
  "history (state (finish w)) = history (state w)"
  by (simp_all add: finish_def)

lemma loop_enters:
  assumes "running (state w)" and "loopAbort w = Some False"
      and "maxIterations (config w) \<le> 0 \<or> int (iteration (state w)) < maxIterations (config w)"
  shows "loop (env # script) w =
           (case loop_body env w of (Some err, w1) \<Rightarrow> (Threw err, w1) | (None, w1) \<Rightarrow> loop script w1)"
  using assms by auto

lemma loop_step:
  assumes "running (state w)" and "loopAbort w = Some False"
      and "maxIterations (config w) \<le> 0 \<or> int (iteration (state w)) < maxIterations (config w)"
      and "fst (loop_body env w) = None"
  shows "loop (env # script) w = loop script (snd (loop_body env w))"
  using assms(4) unfolding loop_enters [OF assms(1-3)] by (cases "loop_body env w") simp

lemma loop_rejected:
  assumes "running (state w)" and "loopAbort w = Some False"
      and "maxIterations (config w) \<le> 0 \<or> int (iteration (state w)) < maxIterations (config w)"
      and "session_result env = SessionThrows err"
  shows "loop (env # script) w = (Threw err, snd (iteration_work env w))"
  unfolding loop_enters [OF assms(1-3)] loop_body_rejected [OF assms(4)] by simp

lemma loop_ceiling:
  assumes "list_all undisturbed script" and "list_all session_resolves script"
      and "running (state w)" and "loopAbort w = Some False"
      and "0 < maxIterations (config w)"
      and "int (iteration (state w)) \<le> maxIterations (config w)"
      and "nat (maxIterations (config w)) - iteration (state w) \<le> length script"
  shows "fst (loop script w) = Completed
       \<and> iteration (state (snd (loop script w))) = nat (maxIterations (config w))
       \<and> \<not> running (state (snd (loop script w)))
       \<and> iterations_of (events (snd (loop script w))) =
           iterations_of (events w) @ [Suc (iteration (state w)) ..< Suc (nat (maxIterations (config w)))]
       \<and> stops_of (events (snd (loop script w))) = stops_of (events w) + 1"
  using assms
proof (induction script arbitrary: w)
  case Nil
  then show ?case by auto
next
  case (Cons env script)
  show ?case
  proof (cases "int (iteration (state w)) \<ge> maxIterations (config w)")
    case True
    with Cons.prems show ?thesis by auto
  next
    case False
    define w1 where "w1 = snd (loop_body env w)"
    from Cons.prems have u: "undisturbed env" and us: "list_all undisturbed script"
      and s: "session_resolves env" and ss: "list_all session_resolves script" by simp_all
    note lb = loop_body_undisturbed [OF u Cons.prems(3) s, folded w1_def]
    have run: "running (state w1)" "loopAbort w1 = Some False"
      and mx: "maxIterations (config w1) = maxIterations (config w)"
      and it: "iteration (state w1) = Suc (iteration (state w))"
      and st: "stops_of (events w1) = stops_of (events w)"
      using lb Cons.prems by (simp_all add: w1_def)
    have ih: "fst (loop script w1) = Completed
       \<and> iteration (state (snd (loop script w1))) = nat (maxIterations (config w1))
       \<and> \<not> running (state (snd (loop script w1)))
       \<and> iterations_of (events (snd (loop script w1))) =
           iterations_of (events w1) @ [Suc (iteration (state w1)) ..< Suc (nat (maxIterations (config w1)))]
       \<and> stops_of (events (snd (loop script w1))) = stops_of (events w1) + 1"
      using us ss run mx it False Cons.prems by (intro Cons.IH) auto
    have step: "loop (env # script) w = loop script w1"
      unfolding w1_def using Cons.prems False lb(1) by (intro loop_step) auto
    have lt: "iteration (state w) < nat (maxIterations (config w))"
      using False Cons.prems by linarith
    have seg: "[Suc (iteration (state w)) ..< Suc (nat (maxIterations (config w)))] =
        Suc (iteration (state w)) # [Suc (Suc (iteration (state w))) ..< Suc (nat (maxIterations (config w)))]"
      using lt by (simp add: upt_conv_Cons)
    show ?thesis
      using ih by (simp only: step mx it st seg lb(6)) simp
  qed
qed

lemma loop_unbounded:
  assumes "list_all undisturbed script" and "list_all session_resolves script"
      and "running (state w)" and "loopAbort w = Some False"
      and "maxIterations (config w) \<le> 0"
  shows "fst (loop script w) = Pending
       \<and> iteration (state (snd (loop script w))) = iteration (state w) + length script
       \<and> running (state (snd (loop script w)))
       \<and> stops_of (events (snd (loop script w))) = stops_of (events w)"
  using assms
proof (induction script arbitrary: w)
  case Nil
  then show ?case by auto
next
  case (Cons env script)
  define w1 where "w1 = snd (loop_body env w)"
  from Cons.prems have u: "undisturbed env" and us: "list_all undisturbed script"
    and s: "session_resolves env" and ss: "list_all session_resolves script" by simp_all
  note lb = loop_body_undisturbed [OF u Cons.prems(3) s, folded w1_def]
  have run: "running (state w1)" "loopAbort w1 = Some False" "maxIterations (config w1) \<le> 0"
    using lb Cons.prems by simp_all
  have st: "stops_of (events w1) = stops_of (events w)" by (simp add: w1_def)
  have step: "loop (env # script) w = loop script w1"
    unfolding w1_def using Cons.prems lb(1) by (intro loop_step) auto
  show ?case
    using Cons.IH [OF us ss run] by (simp only: step lb(5) st) simp
qed

lemma ensure_client_ok:
  assumes "opencodeClient w \<or> (senv = Started \<and> \<not> opencodeServer w)"
  shows "fst (ensure_client senv w) = None" and "opencodeClient (snd (ensure_client senv w))"
    and "state (snd (ensure_client senv w)) = state w"
    and "config (snd (ensure_client senv w)) = config w"
    and "events (snd (ensure_client senv w)) = events w"
  using assms by (auto simp add: ensure_client_def startOpenCode_def)

lemma runLoop_started:
  assumes "opencodeClient w \<or> (senv = Started \<and> \<not> opencodeServer w)"
  shows "runLoop senv script w =
      loop script (broadcast (EvState ((state w)\<lparr>running := True, iteration := 0\<rparr>))
         ((snd (ensure_client senv w))\<lparr>state := (state w)\<lparr>running := True, iteration := 0\<rparr>,
                                        loopAbort := Some False\<rparr>))"
  using ensure_client_ok [OF assms]
  by (cases "ensure_client senv w") (simp add: runLoop_def Let_def)

text \<open>
  The ceiling, for runs in which every \<open>session.create\<close> resolves: with the agent runtime
  available and a run that no request stops and whose ceiling no request moves, a positive
  ceiling \<open>N\<close> and the surroundings of \<open>N\<close> passes make \<open>runLoop\<close> return with the counter
  at \<open>N\<close>, the running flag off, the \<open>iteration\<close> events \<open>1\<close> to \<open>N\<close> published in this
  order and one \<open>stopped\<close> event more than before; with the ceiling \<open>0\<close> the loop is still
  alive after as many passes as there are surroundings.
\<close>

lemma runLoop_ceiling_when_sessions_resolve:
  assumes "opencodeClient w \<or> (senv = Started \<and> \<not> opencodeServer w)"
      and "list_all undisturbed script" and "list_all session_resolves script"
  shows "(0 < maxIterations (config w) \<and> nat (maxIterations (config w)) \<le> length script \<longrightarrow>
            fst (runLoop senv script w) = Completed
          \<and> iteration (state (snd (runLoop senv script w))) = nat (maxIterations (config w))
          \<and> \<not> running (state (snd (runLoop senv script w)))
          \<and> iterations_of (events (snd (runLoop senv script w))) =
              iterations_of (events w) @ [1 ..< Suc (nat (maxIterations (config w)))]
          \<and> stops_of (events (snd (runLoop senv script w))) = stops_of (events w) + 1)
       \<and> (maxIterations (config w) = 0 \<longrightarrow>
            fst (runLoop senv script w) = Pending
          \<and> iteration (state (snd (runLoop senv script w))) = length script
          \<and> running (state (snd (runLoop senv script w)))
          \<and> stops_of (events (snd (runLoop senv script w))) = stops_of (events w))"
proof -
  define w0 where "w0 = broadcast (EvState ((state w)\<lparr>running := True, iteration := 0\<rparr>))
         ((snd (ensure_client senv w))\<lparr>state := (state w)\<lparr>running := True, iteration := 0\<rparr>,
                                        loopAbort := Some False\<rparr>)"
  have eq: "runLoop senv script w = loop script w0"
    unfolding w0_def by (rule runLoop_started [OF assms(1)])
  have w0: "running (state w0)" "loopAbort w0 = Some False" "iteration (state w0) = 0"
      "maxIterations (config w0) = maxIterations (config w)"
      "iterations_of (events w0) = iterations_of (events w)"
      "stops_of (events w0) = stops_of (events w)"
    using ensure_client_ok [OF assms(1)] by (simp_all add: w0_def)
  show ?thesis
  proof (intro conjI impI)
    assume "0 < maxIterations (config w) \<and> nat (maxIterations (config w)) \<le> length script"
    then have "fst (loop script w0) = Completed
       \<and> iteration (state (snd (loop script w0))) = nat (maxIterations (config w0))
       \<and> \<not> running (state (snd (loop script w0)))
       \<and> iterations_of (events (snd (loop script w0))) =
           iterations_of (events w0) @ [Suc (iteration (state w0)) ..< Suc (nat (maxIterations (config w0)))]
       \<and> stops_of (events (snd (loop script w0))) = stops_of (events w0) + 1"
      using w0 assms(2,3) by (intro loop_ceiling) simp_all
    then show "fst (runLoop senv script w) = Completed"
      "iteration (state (snd (runLoop senv script w))) = nat (maxIterations (config w))"
      "\<not> running (state (snd (runLoop senv script w)))"
      "iterations_of (events (snd (runLoop senv script w))) =
              iterations_of (events w) @ [1 ..< Suc (nat (maxIterations (config w)))]"
      "stops_of (events (snd (runLoop senv script w))) = stops_of (events w) + 1"
      by (simp_all add: eq w0)
  next
    assume "maxIterations (config w) = 0"
    then have "fst (loop script w0) = Pending
       \<and> iteration (state (snd (loop script w0))) = iteration (state w0) + length script
       \<and> running (state (snd (loop script w0)))
       \<and> stops_of (events (snd (loop script w0))) = stops_of (events w0)"
      using w0 assms(2,3) by (intro loop_unbounded) simp_all
    then show "fst (runLoop senv script w) = Pending"
      "iteration (state (snd (runLoop senv script w))) = length script"
      "running (state (snd (runLoop senv script w)))"
      "stops_of (events (snd (runLoop senv script w))) = stops_of (events w)"
      by (simp_all add: eq w0)
  qed
qed

lemma undisturbed_quiet_env: "undisturbed quiet_env"
  by (simp add: undisturbed_def env_requests_def quiet_env_def)

lemma session_resolves_quiet_env: "session_resolves quiet_env"
  by (simp add: session_resolves_def quiet_env_def)

lemma undisturbed_rejecting_env: "undisturbed rejecting_env"
  by (simp add: undisturbed_def env_requests_def rejecting_env_def quiet_env_def)

text \<open>
  C1. A run with a ceiling of three passes that no request stops, in which the second
  \<open>session.create\<close> rejects: \<open>runLoop\<close> rejects with that exception after two \<open>iteration\<close>
  events, the counter is at 2, the running flag is still set, and no \<open>stopped\<close> event is
  published.
\<close>

theorem session_rejection_ends_run:
  "fst (runLoop Started [quiet_env, rejecting_env, quiet_env] capped_world)
     = Threw ''TypeError: fetch failed''
   \<and> iteration (state (snd (runLoop Started [quiet_env, rejecting_env, quiet_env] capped_world))) = 2
   \<and> running (state (snd (runLoop Started [quiet_env, rejecting_env, quiet_env] capped_world)))
   \<and> iterations_of (events (snd (runLoop Started [quiet_env, rejecting_env, quiet_env] capped_world)))
       = [1, 2]
   \<and> stops_of (events (snd (runLoop Started [quiet_env, rejecting_env, quiet_env] capped_world))) = 0"
proof -
  define w0 where "w0 = broadcast (EvState ((state capped_world)\<lparr>running := True, iteration := 0\<rparr>))
         ((snd (ensure_client Started capped_world))
            \<lparr>state := (state capped_world)\<lparr>running := True, iteration := 0\<rparr>,
             loopAbort := Some False\<rparr>)"
  have g: "opencodeClient capped_world \<or> (Started = Started \<and> \<not> opencodeServer capped_world)"
    by (simp add: capped_world_def initial_world_def)
  have eq: "runLoop Started [quiet_env, rejecting_env, quiet_env] capped_world
            = loop [quiet_env, rejecting_env, quiet_env] w0"
    unfolding w0_def by (rule runLoop_started [OF g])
  have w0: "running (state w0)" "loopAbort w0 = Some False" "iteration (state w0) = 0"
      "maxIterations (config w0) = 3" "iterations_of (events w0) = []" "stops_of (events w0) = 0"
    using ensure_client_ok [OF g]
    by (simp_all add: w0_def) (simp_all add: capped_world_def initial_world_def)
  define w1 where "w1 = snd (loop_body quiet_env w0)"
  note p1 = loop_body_undisturbed [OF undisturbed_quiet_env w0(1) session_resolves_quiet_env,
              folded w1_def]
  have w1: "running (state w1)" "loopAbort w1 = Some False" "iteration (state w1) = 1"
      "maxIterations (config w1) = 3" "iterations_of (events w1) = [1]" "stops_of (events w1) = 0"
    using p1 w0 by (simp_all add: w1_def)
  have s1: "loop [quiet_env, rejecting_env, quiet_env] w0 = loop [rejecting_env, quiet_env] w1"
    unfolding w1_def using w0 p1(1) by (intro loop_step) simp_all
  define w2 where "w2 = snd (iteration_work rejecting_env w1)"
  have s2: "loop [rejecting_env, quiet_env] w1 = (Threw ''TypeError: fetch failed'', w2)"
    unfolding w2_def using w1 by (intro loop_rejected) (simp_all add: rejecting_env_def)
  note p2 = iteration_work_undisturbed [OF undisturbed_rejecting_env w1(1), folded w2_def]
  have w2: "running (state w2)" "iteration (state w2) = 2" "iterations_of (events w2) = [1, 2]"
      "stops_of (events w2) = 0"
    using p2 w1 by (simp_all add: w2_def)
  show ?thesis unfolding eq s1 s2 using w2 by simp
qed

subsection \<open>history\<close>

lemma push_history_length: "length h \<le> 100 \<Longrightarrow> length (push_history e h) \<le> 100"
  by (simp add: push_history_def Let_def)

lemma push_history_fifo:
  "length h \<le> 100 \<Longrightarrow> push_history e h = (if length h < 100 then h @ [e] else tl h @ [e])"
  by (cases h) (auto simp add: push_history_def Let_def)

lemma push_history_newest:
  "length h \<le> 100 \<Longrightarrow> push_history e h = newest 100 (h @ [e])"
proof (cases "length h < 100")
  case True
  then show ?thesis by (simp add: push_history_def Let_def newest_def)
next
  case False
  assume "length h \<le> 100"
  with False have "length h = 100" by simp
  moreover from this have "h \<noteq> []" by auto
  ultimately show ?thesis by (simp add: push_history_def Let_def newest_def drop_Suc)
qed

lemma newest_length: "length (newest n xs) \<le> n"
  by (simp add: newest_def)

lemma newest_snoc: "newest n (newest n xs @ [x]) = newest n (xs @ [x])"
  by (cases "length xs \<le> n") (auto simp add: newest_def Suc_diff_le)

lemma newest_append: "newest n (newest n xs @ ys) = newest n (xs @ ys)"
proof (induction ys arbitrary: xs rule: rev_induct)
  case Nil
  show ?case by (simp add: newest_def)
next
  case (snoc y ys)
  have "newest n (newest n xs @ ys @ [y]) = newest n (newest n (newest n xs @ ys) @ [y])"
    by (simp add: newest_snoc [of n "newest n xs @ ys" y])
  also have "\<dots> = newest n (newest n (xs @ ys) @ [y])" by (simp only: snoc.IH)
  also have "\<dots> = newest n (xs @ ys @ [y])" by (simp add: newest_snoc [of n "xs @ ys" y])
  finally show ?case by simp
qed

lemma map_newest: "map f (newest n xs) = newest n (map f xs)"
  by (simp add: newest_def drop_map)

lemma dispatch_history_length:
  "length (history (state w)) \<le> 100 \<Longrightarrow> length (history (state (dispatch r p w))) \<le> 100"
  by (simp add: dispatch_def Let_def push_history_length split: PromptResult.splits)

lemma iteration_work_history_length:
  "length (history (state w)) \<le> 100 \<Longrightarrow>
   length (history (state (snd (iteration_work env w)))) \<le> 100"
  by (simp add: iteration_work_def Let_def dispatch_history_length
       split: SessionResult.splits)

lemma loop_body_history:
  "history (state (snd (loop_body env w))) = history (state (snd (iteration_work env w)))"
  by (cases "iteration_work env w") (simp add: loop_body_def split: Flow.splits)

lemma loop_body_history_length:
  "length (history (state w)) \<le> 100 \<Longrightarrow>
   length (history (state (snd (loop_body env w)))) \<le> 100"
  by (simp add: loop_body_history iteration_work_history_length)

lemma loop_history_length:
  "length (history (state w)) \<le> 100 \<Longrightarrow> length (history (state (snd (loop script w)))) \<le> 100"
proof (induction script arbitrary: w)
  case Nil
  then show ?case by (simp split: option.splits)
next
  case (Cons env script)
  obtain thrown w1 where lb: "loop_body env w = (thrown, w1)" by (cases "loop_body env w")
  have w1: "length (history (state w1)) \<le> 100"
    using loop_body_history_length [OF Cons.prems, of env] by (simp add: lb)
  then have "length (history (state (snd (loop script w1)))) \<le> 100"
    by (rule Cons.IH)
  with Cons.prems w1 show ?case by (simp add: lb split: option.splits)
qed

lemma ensure_client_state [simp]: "state (snd (ensure_client senv w)) = state w"
  by (simp add: ensure_client_def startOpenCode_def split: StartEnv.splits)

lemma runLoop_history_length:
  assumes "length (history (state w)) \<le> 100"
  shows "length (history (state (snd (runLoop senv script w)))) \<le> 100"
proof (cases "ensure_client senv w")
  case (Pair thrown w1)
  then have s: "state w1 = state w" using ensure_client_state [of senv w] by simp
  show ?thesis
  proof (cases "thrown = None \<and> opencodeClient w1")
    case True
    with Pair s assms show ?thesis
      by (simp add: runLoop_def Let_def loop_history_length)
  next
    case False
    with Pair s assms show ?thesis
      by (cases thrown) (auto simp add: runLoop_def)
  qed
qed

lemma successful_resolves: "successful env \<Longrightarrow> session_resolves env"
  by (simp add: successful_def session_resolves_def split: SessionResult.splits)

lemma iteration_work_records:
  assumes "successful env" and "length (history (state w)) \<le> 100"
  shows "map h_iteration (history (state (snd (iteration_work env w)))) =
         newest 100 (map h_iteration (history (state w))
                     @ [iteration (state (snd (iteration_work env w)))])"
  using assms
  by (simp add: successful_def iteration_work_def dispatch_def Let_def
        push_history_newest map_newest
      split: SessionResult.splits PromptResult.splits)

lemma loop_body_successful:
  assumes "successful env" and "undisturbed env" and "running (state w)"
      and "length (history (state w)) \<le> 100"
  shows "map h_iteration (history (state (snd (loop_body env w)))) =
         newest 100 (map h_iteration (history (state w)) @ [Suc (iteration (state w))])"
  using iteration_work_records [OF assms(1,4)] iteration_work_undisturbed(4) [OF assms(2,3)]
  by (simp add: loop_body_history)

lemma loop_successful:
  assumes "list_all undisturbed script" and "list_all successful script"
      and "running (state w)" and "loopAbort w = Some False"
      and "maxIterations (config w) \<le> 0
           \<or> int (iteration (state w) + length script) \<le> maxIterations (config w)"
      and "length (history (state w)) \<le> 100"
  shows "map h_iteration (history (state (snd (loop script w)))) =
         newest 100 (map h_iteration (history (state w))
                     @ [Suc (iteration (state w)) ..< Suc (iteration (state w) + length script)])"
  using assms
proof (induction script arbitrary: w)
  case Nil
  then show ?case by (auto simp add: newest_def)
next
  case (Cons env script)
  define w1 where "w1 = snd (loop_body env w)"
  from Cons.prems have u: "undisturbed env" and us: "list_all undisturbed script"
    and s: "successful env" and ss: "list_all successful script" by simp_all
  note lb = loop_body_undisturbed [OF u Cons.prems(3) successful_resolves [OF s], folded w1_def]
  have keep: "running (state w1)" "loopAbort w1 = Some False"
      "maxIterations (config w1) = maxIterations (config w)"
      "iteration (state w1) = Suc (iteration (state w))"
    using lb Cons.prems by simp_all
  have len: "length (history (state w1)) \<le> 100"
    using Cons.prems by (simp add: w1_def loop_body_history_length)
  have h1: "map h_iteration (history (state w1)) =
         newest 100 (map h_iteration (history (state w)) @ [Suc (iteration (state w))])"
    using loop_body_successful [OF s u] Cons.prems by (simp add: w1_def)
  have ceil: "maxIterations (config w1) \<le> 0
           \<or> int (iteration (state w1) + length script) \<le> maxIterations (config w1)"
    using Cons.prems keep by auto
  have step: "loop (env # script) w = loop script w1"
    unfolding w1_def using Cons.prems lb(1) by (intro loop_step) auto
  have "map h_iteration (history (state (snd (loop script w1)))) =
         newest 100 (map h_iteration (history (state w1))
                     @ [Suc (iteration (state w1)) ..< Suc (iteration (state w1) + length script)])"
    using us ss keep(1,2) ceil len by (rule Cons.IH)
  also have "\<dots> = newest 100 ((map h_iteration (history (state w)) @ [Suc (iteration (state w))])
                     @ [Suc (Suc (iteration (state w))) ..< Suc (Suc (iteration (state w)) + length script)])"
    by (simp only: h1 keep(4) newest_append)
  also have "\<dots> = newest 100 (map h_iteration (history (state w))
                     @ [Suc (iteration (state w)) ..< Suc (iteration (state w) + length (env # script))])"
  proof -
    have lt: "Suc (iteration (state w)) < Suc (iteration (state w) + length (env # script))"
      by simp
    have same: "Suc (Suc (iteration (state w)) + length script) =
                Suc (iteration (state w) + length (env # script))"
      by simp
    show ?thesis
      by (simp only: same upt_conv_Cons [OF lt] append_assoc append_Cons append_Nil)
  qed
  finally show ?case by (simp only: step)
qed

lemma successful_quiet_env: "successful quiet_env"
  by (simp add: successful_def quiet_env_def)

text \<open>
  C3. From a history of at most 100 records, a whole run, one pass of the loop body and
  every request handler leave at most 100 records. A record is appended at the end, and
  when that makes 101 the record at the front goes. A run of 101 passes that all record
  a response, left alone, ends with the records of the iterations 2 to 101 in this
  order: the record of iteration 1 is gone and that of iteration 101 is there.
\<close>

theorem history_bounded_fifo:
  assumes "length (history (state w)) \<le> 100"
  shows "length (history (state (snd (runLoop senv script w)))) \<le> 100
       \<and> length (history (state (snd (loop_body env w)))) \<le> 100
       \<and> length (history (state (handle_request r w))) \<le> 100
       \<and> push_history e (history (state w)) =
           (if length (history (state w)) < 100 then history (state w) @ [e]
            else tl (history (state w)) @ [e])
       \<and> ((opencodeClient w \<or> (senv = Started \<and> \<not> opencodeServer w))
            \<and> list_all undisturbed script \<and> list_all successful script \<and> length script = 101
            \<and> (maxIterations (config w) \<le> 0 \<or> 101 \<le> maxIterations (config w)) \<longrightarrow>
          map h_iteration (history (state (snd (runLoop senv script w)))) = [2 ..< 102])"
proof (intro conjI impI)
  show "length (history (state (snd (runLoop senv script w)))) \<le> 100"
    using assms by (rule runLoop_history_length)
  show "length (history (state (snd (loop_body env w)))) \<le> 100"
    using assms by (rule loop_body_history_length)
  show "length (history (state (handle_request r w))) \<le> 100"
    using assms by simp
  show "push_history e (history (state w)) =
           (if length (history (state w)) < 100 then history (state w) @ [e]
            else tl (history (state w)) @ [e])"
    using assms by (rule push_history_fifo)
next
  assume a: "(opencodeClient w \<or> (senv = Started \<and> \<not> opencodeServer w))
            \<and> list_all undisturbed script \<and> list_all successful script \<and> length script = 101
            \<and> (maxIterations (config w) \<le> 0 \<or> 101 \<le> maxIterations (config w))"
  define w0 where "w0 = broadcast (EvState ((state w)\<lparr>running := True, iteration := 0\<rparr>))
         ((snd (ensure_client senv w))\<lparr>state := (state w)\<lparr>running := True, iteration := 0\<rparr>,
                                        loopAbort := Some False\<rparr>)"
  have eq: "runLoop senv script w = loop script w0"
    unfolding w0_def using a by (intro runLoop_started) simp
  have w0: "running (state w0)" "loopAbort w0 = Some False" "iteration (state w0) = 0"
      "maxIterations (config w0) = maxIterations (config w)"
      "history (state w0) = history (state w)"
    using ensure_client_ok [of w senv] a by (simp_all add: w0_def)
  have "map h_iteration (history (state (snd (loop script w0)))) =
         newest 100 (map h_iteration (history (state w0))
                     @ [Suc (iteration (state w0)) ..< Suc (iteration (state w0) + length script)])"
    using a w0 assms by (intro loop_successful) auto
  also have "\<dots> = newest 100 (map h_iteration (history (state w)) @ [1 ..< 102])"
    using a by (simp add: w0)
  also have "\<dots> = drop (length (history (state w)) + 1) (map h_iteration (history (state w)) @ [1 ..< 102])"
    by (simp add: newest_def)
  also have "\<dots> = drop 1 [1 ..< 102]"
    by simp
  also have "\<dots> = [2 ..< 102]"
    by (simp only: drop_upt one_add_one)
  finally show "map h_iteration (history (state (snd (runLoop senv script w)))) = [2 ..< 102]"
    by (simp only: eq)
qed

text \<open>
  From the store of a fresh process, 101 passes with a session and an answer.
\<close>

theorem history_bounded_fifo_witness:
  "length (history (state (snd (runLoop Started (replicate 101 quiet_env) initial_world)))) \<le> 100
   \<and> map h_iteration (history (state (snd (runLoop Started (replicate 101 quiet_env) initial_world))))
       = [2 ..< 102]
   \<and> 1 \<notin> h_iteration ` set (history (state (snd (runLoop Started (replicate 101 quiet_env) initial_world))))
   \<and> 101 \<in> h_iteration ` set (history (state (snd (runLoop Started (replicate 101 quiet_env) initial_world))))"
proof -
  have h: "length (history (state initial_world)) \<le> 100"
    by (simp add: initial_world_def initial_state_def)
  have s: "list_all undisturbed (replicate 101 quiet_env)" "list_all successful (replicate 101 quiet_env)"
    by (simp_all add: list_all_iff undisturbed_quiet_env successful_quiet_env)
  have g: "\<not> opencodeServer initial_world" "maxIterations (config initial_world) = 0"
    by (simp_all add: initial_world_def initial_config_def)
  from history_bounded_fifo [OF h, of Started "replicate 101 quiet_env"] s g
  have b: "length (history (state (snd (runLoop Started (replicate 101 quiet_env) initial_world)))) \<le> 100"
    and m: "map h_iteration (history (state (snd (runLoop Started (replicate 101 quiet_env) initial_world))))
       = [2 ..< 102]"
    by simp_all
  have "h_iteration ` set (history (state (snd (runLoop Started (replicate 101 quiet_env) initial_world))))
        = set [2 ..< 102]"
    by (simp only: m [symmetric] set_map)
  with b m show ?thesis by simp
qed

subsection \<open>the prompt builder\<close>

lemma prompt_sections_spec: "prompt_sections c s = spec_sections c s"
  by (simp add: prompt_sections_def spec_sections_def optional_section_def Let_def)

text \<open>
  C4. \<open>buildPrompt\<close> depends on the configuration and the run state alone, and its
  result is the sections of the specification joined by a blank line: persistent memory,
  working memory, fenced monitor output and previous response, each present exactly when
  its source text is not empty, then the task and the iteration marker. The number of
  sections is two more than the number of non-empty sources.
\<close>

theorem buildPrompt_sections:
  "buildPrompt c s = join ''\<newline>\<newline>'' (spec_sections c s)
   \<and> length (spec_sections c s) =
       2 + length (filter (\<lambda>source. source \<noteq> [])
                     [persistent c, working c, monitorOutput s, lastOutput s])"
  by (simp add: buildPrompt_def prompt_sections_spec) (simp add: spec_sections_def optional_section_def)

text \<open>
  With persistent memory and monitor output only, the prompt has these two sections, the
  task and the marker, and neither a working-memory section nor a previous response.
\<close>

theorem buildPrompt_sections_witness:
  "buildPrompt (initial_config\<lparr>persistent := ''P'', user := ''T''\<rparr>)
               (initial_state\<lparr>monitorOutput := ''M'', iteration := 12\<rparr>)
   = ''## Persistent Memory\<newline>P\<newline>\<newline>## Monitor Output\<newline>```\<newline>M\<newline>```\<newline>\<newline>## Current Task\<newline>T\<newline>\<newline>\<newline>---\<newline>Iteration: 12''"
  using buildPrompt_sections [of "initial_config\<lparr>persistent := ''P'', user := ''T''\<rparr>"
          "initial_state\<lparr>monitorOutput := ''M'', iteration := 12\<rparr>"]
  by (simp add: spec_sections_def optional_section_def initial_config_def initial_state_def
        string_of_nat.simps digit_char_def)

subsection \<open>the monitor runner\<close>

text \<open>
  C8, amended. With a monitor command configured, \<open>runMonitor\<close> always returns a store.
  When the shell has run, the monitor output is its standard output, followed by the
  block labelled \<open>[stderr]\<close> exactly when standard error is not empty, whatever the
  exit status: a command that \<open>sh\<close> cannot find or execute, or that fails, is reported in
  this form. When spawning the shell or reading a pipe throws, the monitor output is the
  text \<open>Error running monitor: \<close> followed by the exception. The output is published
  in a \<open>monitor\<close> event, and the pass throws only when \<open>session.create\<close> rejects,
  whatever the shell did.
\<close>

theorem runMonitor_reports_pipes:
  assumes "monitor (config w) = Some command"
  shows "(\<forall>out err status. shell env command = ShellOutput out err status \<longrightarrow>
            monitorOutput (state (runMonitor env w)) =
              (if err = [] then out else out @ ''\<newline>[stderr]\<newline>'' @ err))
       \<and> (\<forall>e. shell env command = ShellThrows e \<longrightarrow>
            monitorOutput (state (runMonitor env w)) = ''Error running monitor: '' @ e)
       \<and> events (runMonitor env w) =
           events (suspend (monitor_wait env) w) @ [EvMonitor (monitorOutput (state (runMonitor env w)))]
       \<and> fst (loop_body env w) =
           (case session_result env of SessionThrows err \<Rightarrow> Some err | _ \<Rightarrow> None)"
  using assms
  by (simp add: runMonitor_def monitor_try_def Let_def loop_body_thrown split: ShellResult.splits)

text \<open>
  A command that writes to both pipes and fails, and a shell that cannot be spawned.
\<close>

theorem runMonitor_reports_pipes_witness:
  "monitorOutput (state (runMonitor (quiet_env\<lparr>shell := (\<lambda>c. ShellOutput ''up'' ''warn'' 2)\<rparr>)
       monitored_world))
     = ''up\<newline>[stderr]\<newline>warn''
   \<and> monitorOutput (state (runMonitor (quiet_env\<lparr>shell := (\<lambda>c. ShellThrows ''ENOENT'')\<rparr>)
       monitored_world))
     = ''Error running monitor: ENOENT''"
  using runMonitor_reports_pipes [of monitored_world "''nosuchcmd''"
          "quiet_env\<lparr>shell := (\<lambda>c. ShellOutput ''up'' ''warn'' 2)\<rparr>"]
        runMonitor_reports_pipes [of monitored_world "''nosuchcmd''"
          "quiet_env\<lparr>shell := (\<lambda>c. ShellThrows ''ENOENT'')\<rparr>"]
  by (simp add: monitored_world_def initial_world_def initial_config_def quiet_env_def)

text \<open>
  C8 as stated fails: a command that the shell cannot find makes a monitor output that
  is the labelled standard-error block, with no error indicator in front.
\<close>

theorem command_not_found_is_plain_output:
  "monitorOutput (state (runMonitor not_found_env monitored_world))
     = ''\<newline>[stderr]\<newline>sh: 1: nosuchcmd: not found\<newline>''
   \<and> \<not> prefix ''Error'' (monitorOutput (state (runMonitor not_found_env monitored_world)))"
  by (simp add: runMonitor_def monitor_try_def Let_def not_found_env_def quiet_env_def
        monitored_world_def initial_world_def initial_config_def)

subsection \<open>working memory\<close>





subsection \<open>starting without the agent runtime\<close>

lemma runLoop_no_gateway:
  assumes "\<not> opencodeClient w" and "opencodeServer w \<or> senv \<noteq> Started"
  shows "\<exists>err w1. runLoop senv script w = (Threw err, w1) \<and> events w1 = events w \<and> state w1 = state w
          \<and> config w1 = config w \<and> loopAbort w1 = loopAbort w \<and> console w1 = console w"
  using assms
  by (cases senv) (auto simp add: runLoop_def ensure_client_def startOpenCode_def)

text \<open>
  C5, amended. When the agent runtime cannot be established at the start of the loop
  (no client, and either a server handle without client or a start that fails), the
  start handler publishes no event at all: the run state, and with it the running flag
  and the counter, is as before, the loop body does not run, and the exception is one
  more line on the console.
\<close>

theorem start_without_gateway:
  assumes "\<not> running (state w)" and "\<not> opencodeClient w" and "opencodeServer w \<or> senv \<noteq> Started"
  shows "events (api_start senv script w) = events w
       \<and> state (api_start senv script w) = state w
       \<and> loopAbort (api_start senv script w) = loopAbort w
       \<and> (\<exists>err. console (api_start senv script w) = console w @ [err])"
proof -
  from runLoop_no_gateway [OF assms(2,3), of script] obtain err w1 where
    "runLoop senv script w = (Threw err, w1)" "events w1 = events w" "state w1 = state w"
    "loopAbort w1 = loopAbort w" "console w1 = console w"
    by blast
  with assms(1) show ?thesis by (simp add: api_start_def)
qed

text \<open>
  The fresh process, when the runtime cannot be spawned.
\<close>

theorem start_without_gateway_witness:
  "events (api_start (ServerFails ''Error: spawn ENOENT'') [quiet_env] initial_world) = events initial_world
   \<and> state (api_start (ServerFails ''Error: spawn ENOENT'') [quiet_env] initial_world) = state initial_world"
  using start_without_gateway [of initial_world "ServerFails ''Error: spawn ENOENT''" "[quiet_env]"]
  by (simp add: initial_world_def initial_state_def)

text \<open>
  C5 as stated fails: no error event is published when the runtime cannot be spawned.
\<close>

theorem start_without_gateway_publishes_nothing:
  "events (api_start (ServerFails ''Error: spawn ENOENT'') [quiet_env] initial_world) = []"
  by (simp add: api_start_def runLoop_def ensure_client_def startOpenCode_def initial_world_def
        initial_state_def)

subsection \<open>a prompt call that fails\<close>

text \<open>
  C6. A prompt call that resolves without data appends no history record and leaves
  the last output alone, and publishes no error event either; a prompt call that throws
  publishes the error event with the iteration number.
\<close>

theorem prompt_without_data_is_silent:
  "errors_of (events (snd (loop_body no_data_env initial_world))) = []
   \<and> history (state (snd (loop_body no_data_env initial_world))) = []
   \<and> lastOutput (state (snd (loop_body no_data_env initial_world))) = []
   \<and> errors_of (events (snd (loop_body throwing_env initial_world)))
       = [(''Error: fetch failed'', Some 1)]"
  by (simp add: loop_body_def sleep_def suspend_def iteration_work_def runMonitor_def
        dispatch_def broadcast_def Let_def errors_of_def map_filter_def
        no_data_env_def throwing_env_def quiet_env_def initial_world_def initial_state_def initial_config_def)

subsection \<open>listing the models\<close>

text \<open>
  C9. When the runtime cannot be spawned, \<open>fetchModels\<close> rejects with the exception of
  \<open>startOpenCode\<close>, whatever the provider listing would have answered.
\<close>

theorem fetchModels_raises:
  "fst (fetchModels (ServerFails ''Error: spawn ENOENT'') pr initial_world) = Inl ''Error: spawn ENOENT''"
  by (simp add: fetchModels_def ensure_client_def startOpenCode_def initial_world_def)

lemma fetchModels_best_effort:
  "opencodeClient w \<or> opencodeServer w \<or> senv = Started \<Longrightarrow>
   pr = ProvidersNoData \<or> pr = ProvidersThrow e \<Longrightarrow>
   fst (fetchModels senv pr w) = Inr []"
  by (auto simp add: fetchModels_def ensure_client_def startOpenCode_def)

subsection \<open>a stop during the pacing sleep\<close>

text \<open>
  A stop request, and no start request, served while a timer runs: the sleep lasts as
  long as its timer, which is the delay it was given when that is between 1 and
  \<open>2^31 - 1\<close>, and the loop that resumes then ends without another pass.
\<close>

lemma stop_during_sleep:
  assumes "list_ex stops_run rs" and "\<not> list_ex starts_run rs"
  shows "clock (sleep ms rs w) = clock w + timer_delay ms
       \<and> (1 \<le> ms \<and> ms \<le> 2147483647 \<longrightarrow> int (timer_delay ms) = ms)
       \<and> loop script (sleep ms rs w) = (Completed, finish (sleep ms rs w))
       \<and> iteration (state (sleep ms rs w)) = iteration (state w)
       \<and> iterations_of (events (sleep ms rs w)) = iterations_of (events w)"
proof -
  have s: "state (sleep ms rs w) = (state w)\<lparr>running := False\<rparr>"
      "iterations_of (events (sleep ms rs w)) = iterations_of (events w)"
    using serve_no_start [OF assms(2), of w] assms(1) by (simp_all add: sleep_def)
  then have r: "\<not> running (state (sleep ms rs w))" by simp
  have l: "loop script (sleep ms rs w) = (Completed, finish (sleep ms rs w))"
    using r by (cases script) (simp_all split: option.splits)
  show ?thesis by (simp add: l s timer_delay_def)
qed

text \<open>
  C7. A stop request served while the loop sleeps after its first pass, with the default
  interval of 5000 ms: the loop resumes when the whole interval has passed, not before;
  it then ends without another pass, with the one \<open>iteration\<close> event of the pass and one
  \<open>stopped\<close> event.
\<close>

theorem stop_does_not_cut_sleep:
  "fst (loop_body stopping_env running_world) = None
   \<and> clock (snd (iteration_work stopping_env running_world)) = clock running_world
   \<and> clock (snd (loop_body stopping_env running_world)) = clock running_world + 5000
   \<and> loop [quiet_env] (snd (loop_body stopping_env running_world))
       = (Completed, finish (snd (loop_body stopping_env running_world)))
   \<and> iterations_of (events (finish (snd (loop_body stopping_env running_world)))) = [1]
   \<and> stops_of (events (finish (snd (loop_body stopping_env running_world)))) = 1"
  by (simp add: loop_body_def sleep_def suspend_def iteration_work_def runMonitor_def dispatch_def
        timer_delay_def Let_def stopping_env_def quiet_env_def running_world_def
        initial_world_def initial_state_def initial_config_def
        iterations_of_def stops_of_def map_filter_def)

text \<open>
  A start request served after the stop in the same sleep sets the running flag again and
  replaces the abort controller: the loop that resumes goes on.
\<close>

lemma stop_then_start_goes_on:
  "fst (loop [] (snd (loop_body restarting_env running_world))) = Pending
   \<and> running (state (snd (loop_body restarting_env running_world)))
   \<and> loopAbort (snd (loop_body restarting_env running_world)) = Some False"
  by (simp add: loop_body_def sleep_def suspend_def iteration_work_def runMonitor_def dispatch_def
        start_while_suspended_def Let_def restarting_env_def quiet_env_def running_world_def
        initial_world_def initial_state_def initial_config_def)

subsection \<open>monitor output without a monitor command\<close>








end
